theory Spec2Isabelle
  imports Main
begin

section \<open>The login and MFA request handlers of \<open>app/blueprints/login/login_routes.py\<close>\<close>

text \<open>
  The handlers are embedded as state-passing functions: each takes the collaborators
  (\<open>env\<close>), the request and the state (session, login manager, database, audit trail,
  server log) and returns what the handler returns or raises, with the state as it is
  at that moment. A raise is \<open>Inl\<close>, a returned response is \<open>Inr\<close>.
\<close>

subsection \<open>Data\<close>

text \<open>The rows of the user table, with the attributes the handlers read and write.\<close>

record User =
  user_id :: nat
  user :: string
  password :: string
  is_service_account :: bool
  mfa_secrets :: "string option"
  mfa_enabled :: bool
  email :: string
  ctx_case :: "int option"
  ctx_human_case :: "string option"
  active :: bool

text \<open>The rows of the case table.\<close>

record Cases =
  case_id :: int
  name :: string

text \<open>The dictionary stored under \<open>session['current_case']\<close>.\<close>

record current_case_dict =
  cc_case_name :: "string option"
  cc_case_info :: string
  cc_case_id :: "int option"

text \<open>
  The Flask session is a dictionary; the handlers use four keys of it, each with values
  of one type, so it is a record of optional fields: \<open>None\<close> is an absent key.
  \<open>permanent\<close> is the attribute \<open>session.permanent\<close>. The permission set is opaque.
\<close>

type_synonym perms = nat

record Session =
  username :: "string option"
  mfa_verified :: "bool option"
  permissions :: "perms option"
  current_case :: "current_case_dict option"
  permanent :: bool

text \<open>Exceptions, each with the text its \<open>__str__\<close> gives.\<close>

datatype exn = AttributeError string | ValueError string | OtherError string

fun exn_str :: "exn \<Rightarrow> string" where
  "exn_str (AttributeError m) = m"
| "exn_str (ValueError m) = m"
| "exn_str (OtherError m) = m"

text \<open>
  \<open>url_for\<close> builds a URL from an endpoint name and is kept symbolic; \<open>Url\<close> is a URL
  given as text.
\<close>

datatype location =
    Url string
  | UrlFor string
  | UrlForCid string "int option"

datatype response =
    Redirect location
  | RenderLogin "string option"
  | RenderMfaSetup "string option" string
  | RenderMfaVerify
  | Unauthorized

text \<open>
  The state the handlers work on: the session, the user Flask-Login resolves as
  \<open>current_user\<close> (\<open>None\<close> is the anonymous user), the two tables, the activity trail
  written by \<open>track_activity\<close>, the lines written by \<open>log.error\<close> and the flashed messages.
\<close>

record state =
  session :: Session
  current_user :: "User option"
  users :: "User list"
  cases :: "Cases list"
  activities :: "string list"
  error_log :: "string list"
  flashes :: "(string \<times> string) list"

text \<open>What a request carries, as far as the handlers look at it.\<close>

record request =
  args_next :: "string option"
  form_username :: string
  form_password :: string
  form_is_submitted :: bool
  form_validate :: bool
  mfa_form_submit_and_validate :: bool
  form_token :: "string option"

text \<open>
  The collaborators that are not part of this file. \<open>ldap_authenticate\<close> returns a truth
  value or raises. \<open>totp_verify secret token\<close> is \<open>pyotp.TOTP(secret).verify(token)\<close> at
  the time of the request, \<open>random_base32\<close> the secret \<open>pyotp.random_base32()\<close> draws.
  \<open>AUTHENTICATION_LOCAL_FALLBACK\<close> tells whether the configuration value is \<open>True\<close>.
  \<open>str_user\<close> is \<open>str\<close> on a user object.
  \<open>netloc_invalid\<close> tells which network locations \<open>urlsplit\<close> rejects after it has
  found them (the checks of a bracketed host and of NFKC normalisation).
\<close>

record env =
  ldap_authenticate :: "string \<Rightarrow> string \<Rightarrow> exn + bool"
  check_password_hash :: "string \<Rightarrow> string \<Rightarrow> bool"
  ac_get_effective_permissions_of_user :: "User \<Rightarrow> perms"
  totp_verify :: "string \<Rightarrow> string option \<Rightarrow> bool"
  random_base32 :: string
  is_authentication_ldap :: bool
  AUTHENTICATION_LOCAL_FALLBACK :: bool
  str_user :: "User \<Rightarrow> string"
  netloc_invalid :: "string \<Rightarrow> bool"

type_synonym 'a result = "(exn + 'a) \<times> state"

subsection \<open>Python strings\<close>

definition apos :: string where
  "apos = [CHR 0x27]"

fun startswith :: "string \<Rightarrow> string \<Rightarrow> bool" where
  "startswith s [] = True"
| "startswith [] (p # ps) = False"
| "startswith (c # cs) (p # ps) = (c = p \<and> startswith cs ps)"

text \<open>\<open>contains sub s\<close> is Python's \<open>sub in s\<close> on strings.\<close>

fun contains :: "string \<Rightarrow> string \<Rightarrow> bool" where
  "contains sub [] = (sub = [])"
| "contains sub (c # cs) = (startswith (c # cs) sub \<or> contains sub cs)"

definition digit_char :: "nat \<Rightarrow> char" where
  "digit_char d = ''0123456789'' ! d"

function str_nat :: "nat \<Rightarrow> string" where
  "str_nat n = (if n < 10 then [digit_char n] else str_nat (n div 10) @ [digit_char (n mod 10)])"
  by pat_completeness auto
termination
  by (relation "measure id") auto

declare str_nat.simps [simp del]

definition str_int :: "int \<Rightarrow> string" where
  "str_int i = (if i < 0 then CHR ''-'' # str_nat (nat (- i)) else str_nat (nat i))"

text \<open>\<open>str\<close> on an attribute that holds an integer or \<open>None\<close>.\<close>

definition str_opt_int :: "int option \<Rightarrow> string" where
  "str_opt_int x = (case x of None \<Rightarrow> ''None'' | Some i \<Rightarrow> str_int i)"

text \<open>The text of the \<open>AttributeError\<close> that reading the attribute \<open>a\<close> of \<open>None\<close> raises.\<close>

definition none_has_no_attribute :: "string \<Rightarrow> string" where
  "none_has_no_attribute a =
     apos @ ''NoneType'' @ apos @ '' object has no attribute '' @ apos @ a @ apos"

text \<open>Truth of an attribute that holds a string or \<open>None\<close>.\<close>

definition truthy :: "string option \<Rightarrow> bool" where
  "truthy x = (case x of None \<Rightarrow> False | Some s \<Rightarrow> s \<noteq> [])"

subsection \<open>The network location \<open>urlsplit\<close> finds\<close>

text \<open>
  \<open>urllib.parse.urlsplit\<close> of the standard library (CPython 3.11), as far as its \<open>netloc\<close>
  goes: leading C0 control characters and spaces are stripped, tab, carriage return and
  line feed are removed everywhere, a scheme is split off at the first colon when the
  text before it starts with an ASCII letter and consists of scheme characters, and if
  what remains starts with two slashes the network location runs up to the next slash,
  question mark or hash. A network location with one square bracket but not the other
  raises \<open>ValueError\<close>; so does one that \<open>netloc_invalid\<close> rejects (the text of that
  error is not modelled).
\<close>

definition c0_control_or_space :: "char \<Rightarrow> bool" where
  "c0_control_or_space c = (of_char c \<le> (32::nat))"

definition unsafe_url_byte :: "char \<Rightarrow> bool" where
  "unsafe_url_byte c = (of_char c \<in> {9::nat, 10, 13})"

definition ascii_alpha :: "char \<Rightarrow> bool" where
  "ascii_alpha c = (let n = (of_char c :: nat) in (65 \<le> n \<and> n \<le> 90) \<or> (97 \<le> n \<and> n \<le> 122))"

definition scheme_char :: "char \<Rightarrow> bool" where
  "scheme_char c = (let n = (of_char c :: nat) in
     ascii_alpha c \<or> (48 \<le> n \<and> n \<le> 57) \<or> c = CHR ''+'' \<or> c = CHR ''-'' \<or> c = CHR ''.'')"

definition strip_scheme :: "string \<Rightarrow> string" where
  "strip_scheme url =
     (let pre = takeWhile (\<lambda>c. c \<noteq> CHR '':'') url in
      if CHR '':'' \<in> set url \<and> pre \<noteq> [] \<and> ascii_alpha (hd pre) \<and> list_all scheme_char pre
      then drop (length pre + 1) url else url)"

definition netloc_delim :: "char \<Rightarrow> bool" where
  "netloc_delim c = (c = CHR ''/'' \<or> c = CHR ''?'' \<or> c = CHR ''#'')"

definition splitnetloc :: "string \<Rightarrow> string" where
  "splitnetloc url = takeWhile (\<lambda>c. \<not> netloc_delim c) (drop 2 url)"

definition find_netloc :: "string \<Rightarrow> string" where
  "find_netloc url0 =
     (let url = strip_scheme (filter (\<lambda>c. \<not> unsafe_url_byte c) (dropWhile c0_control_or_space url0))
      in if take 2 url = ''//'' then splitnetloc url else [])"

definition urlsplit_netloc :: "env \<Rightarrow> string \<Rightarrow> exn + string" where
  "urlsplit_netloc env url =
     (let netloc = find_netloc url in
      if (CHR ''['' \<in> set netloc \<and> CHR '']'' \<notin> set netloc) \<or>
         (CHR '']'' \<in> set netloc \<and> CHR ''['' \<notin> set netloc)
      then Inl (ValueError ''Invalid IPv6 URL'')
      else if netloc \<noteq> [] \<and> netloc_invalid env netloc
      then Inl (ValueError ''invalid netloc'')
      else Inr netloc)"

text \<open>
  The query component that \<open>urlsplit\<close> finds: of what follows the scheme and the network
  location, the part before the first hash, and of that part what stands behind the first
  question mark.
\<close>

definition urlsplit_query :: "string \<Rightarrow> string" where
  "urlsplit_query url0 =
     (let url = strip_scheme (filter (\<lambda>c. \<not> unsafe_url_byte c) (dropWhile c0_control_or_space url0));
          rest = (if take 2 url = ''//'' then dropWhile (\<lambda>c. \<not> netloc_delim c) (drop 2 url) else url);
          before_hash = takeWhile (\<lambda>c. c \<noteq> CHR ''#'') rest
      in drop 1 (dropWhile (\<lambda>c. c \<noteq> CHR ''?'') before_hash))"

fun split_char :: "char \<Rightarrow> string \<Rightarrow> string list" where
  "split_char d [] = [[]]"
| "split_char d (c # cs) =
     (if c = d then [] # split_char d cs
      else (case split_char d cs of [] \<Rightarrow> [[c]] | p # ps \<Rightarrow> (c # p) # ps))"

text \<open>
  The names of the query parameters of a URL: the query is cut at every ampersand, and a
  piece with an equals sign is a parameter whose name is the text before the first one
  (percent escapes are left as they are).
\<close>

definition query_parameter_names :: "string \<Rightarrow> string list" where
  "query_parameter_names url =
     map (takeWhile (\<lambda>c. c \<noteq> CHR ''=''))
       (filter (\<lambda>piece. CHR ''='' \<in> set piece) (split_char (CHR ''&'') (urlsplit_query url)))"

subsection \<open>Collaborators\<close>

text \<open>
  Modelled from the spec: \<open>track_activity\<close> is defined in another module,
  \<open>app.iris_engine.utils.tracker\<close>; the spec calls it an append-only audit log sink. Every
  call in this file passes \<open>ctx_less=True, display_in_ui=False\<close>, so only the message is
  kept.
\<close>

definition track_activity :: "string \<Rightarrow> state \<Rightarrow> state" where
  "track_activity msg st = st\<lparr>activities := activities st @ [msg]\<rparr>"

text \<open>
  Modelled from the spec: \<open>get_active_user_by_login\<close> is defined in another module,
  \<open>app.datamgmt.manage.manage_users_db\<close>; the spec calls it a user-store lookup by login
  name returning active users only.
\<close>

definition get_active_user_by_login :: "string \<Rightarrow> state \<Rightarrow> User option" where
  "get_active_user_by_login login_name st =
     find (\<lambda>u. user u = login_name \<and> active u) (users st)"

text \<open>\<open>login_user\<close> of Flask-Login binds the session to the user.\<close>

definition login_user :: "User \<Rightarrow> state \<Rightarrow> state" where
  "login_user u st = st\<lparr>current_user := Some u\<rparr>"

text \<open>
  \<open>db.session.commit()\<close> after attributes of the user object \<open>u\<close> were assigned: the row
  with the user's id now holds the object's attributes.
\<close>

definition db_commit :: "User \<Rightarrow> state \<Rightarrow> state" where
  "db_commit u st = st\<lparr>users := map (\<lambda>v. if user_id v = user_id u then u else v) (users st)\<rparr>"

text \<open>\<open>Cases.query.order_by(Cases.case_id).first()\<close>: \<open>None\<close> when the table is empty.\<close>

definition first_case_by_id :: "state \<Rightarrow> Cases option" where
  "first_case_by_id st =
     (case sort_key case_id (cases st) of [] \<Rightarrow> None | c # _ \<Rightarrow> Some c)"

text \<open>
  \<open>current_user.user\<close>: the login name of the logged-in user. Flask-Login's anonymous
  user, an \<open>AnonymousUserMixin\<close>, has no attribute \<open>user\<close>, so for it the access raises.
\<close>

definition anonymous_has_no_user :: string where
  "anonymous_has_no_user =
     apos @ ''AnonymousUserMixin'' @ apos @ '' object has no attribute '' @ apos @ ''user'' @ apos"

definition current_user_user :: "state \<Rightarrow> exn + string" where
  "current_user_user st =
     (case current_user st of
        Some u \<Rightarrow> Inr (user u)
      | None \<Rightarrow> Inl (AttributeError anonymous_has_no_user))"

definition flash :: "string \<Rightarrow> string \<Rightarrow> state \<Rightarrow> state" where
  "flash msg category st = st\<lparr>flashes := flashes st @ [(msg, category)]\<rparr>"

subsection \<open>The handlers\<close>

text \<open>
  Names that start with an underscore in the source are written without it. The form
  object a handler passes on to a template is left out of the rendered response.
\<close>

definition retrieve_user_by_username :: "string \<Rightarrow> state \<Rightarrow> User option \<times> state" where
  "retrieve_user_by_username uname st =
     (case get_active_user_by_login uname st of
        None \<Rightarrow>
          (None, track_activity
             (''someone tried to log in with user '' @ apos @ uname @ apos @ '', which does not exist'') st)
      | Some u \<Rightarrow> (Some u, st))"

definition render_template_login :: "string option \<Rightarrow> response" where
  "render_template_login msg = RenderLogin msg"

definition wrong_credentials :: string where
  "wrong_credentials = ''Wrong credentials. Please try again.''"

definition ldap_unavailable :: string where
  "ldap_unavailable = ''LDAP authentication unavailable. Check server logs''"

text \<open>
  Lines 152 to 156 of \<open>wrap_login_user\<close>: the case context of a user who has none. The
  user object is the one \<open>login_user\<close> was just given, so \<open>current_user\<close> sees the
  assignment too.
\<close>

definition resolve_case :: "User \<Rightarrow> state \<Rightarrow> (exn + User) \<times> state" where
  "resolve_case u st =
     (if ctx_case u = None then
        (case first_case_by_id st of
           None \<Rightarrow>
             (Inl (AttributeError (none_has_no_attribute ''case_id'')), st)
         | Some c \<Rightarrow>
             (let u' = u\<lparr>ctx_case := Some (case_id c), ctx_human_case := Some (name c)\<rparr>
              in (Inr u', (db_commit u' st)\<lparr>current_user := Some u'\<rparr>)))
      else (Inr u, st))"

text \<open>Lines 166 to 171 of \<open>wrap_login_user\<close>: where the redirect goes.\<close>

definition redirect_target :: "env \<Rightarrow> request \<Rightarrow> User \<Rightarrow> exn + location" where
  "redirect_target env req u =
     (let next_url =
        (case args_next req of
           None \<Rightarrow> None
         | Some nxt \<Rightarrow>
             if nxt = [] then None
             else Some (if contains ''cid='' nxt then nxt
                        else nxt @ ''?cid='' @ str_opt_int (ctx_case u)))
      in case next_url of
           None \<Rightarrow> Inr (UrlForCid ''index.index'' (ctx_case u))
         | Some target \<Rightarrow>
             if target = [] then Inr (UrlForCid ''index.index'' (ctx_case u))
             else (case urlsplit_netloc env target of
                     Inl e \<Rightarrow> Inl e
                   | Inr netloc \<Rightarrow>
                       if netloc \<noteq> [] then Inr (UrlForCid ''index.index'' (ctx_case u))
                       else Inr (Url target)))"

definition wrap_login_user :: "env \<Rightarrow> request \<Rightarrow> User \<Rightarrow> state \<Rightarrow> response result" where
  "wrap_login_user env req u st0 =
     (let st1 = st0\<lparr>session := (session st0)\<lparr>username := Some (user u)\<rparr>\<rparr> in
      if mfa_verified (session st1) = None \<or> mfa_verified (session st1) = Some False
      then (Inr (Redirect (UrlFor ''mfa_verify'')), st1)
      else
        let st2 = login_user u st1;
            st3 = track_activity (''user '' @ apos @ user u @ apos @ '' successfully logged-in'') st2;
            st4 = st3\<lparr>session := (session st3)
                    \<lparr>permissions := Some (ac_get_effective_permissions_of_user env u)\<rparr>\<rparr>
        in case resolve_case u st4 of
             (Inl e, st5) \<Rightarrow> (Inl e, st5)
           | (Inr u', st5) \<Rightarrow>
               let st6 = st5\<lparr>session := (session st5)\<lparr>current_case := Some
                           \<lparr>cc_case_name = ctx_human_case u', cc_case_info = [],
                            cc_case_id = ctx_case u'\<rparr>\<rparr>\<rparr>;
                   st7 = track_activity
                           (''user '' @ apos @ str_user env u' @ apos @ '' successfully logged-in'') st6
               in case redirect_target env req u' of
                    Inl e \<Rightarrow> (Inl e, st7)
                  | Inr loc \<Rightarrow> (Inr (Redirect loc), st7))"

definition authenticate_password :: "env \<Rightarrow> request \<Rightarrow> string \<Rightarrow> string \<Rightarrow> state \<Rightarrow> response result" where
  "authenticate_password env req uname passwd st =
     (case retrieve_user_by_username uname st of
        (None, st1) \<Rightarrow> (Inr (render_template_login (Some wrong_credentials)), st1)
      | (Some u, st1) \<Rightarrow>
          if is_service_account u then (Inr (render_template_login (Some wrong_credentials)), st1)
          else if check_password_hash env (password u) passwd then wrap_login_user env req u st1
          else (Inr (render_template_login (Some wrong_credentials)),
                track_activity
                  (''wrong login password for user '' @ apos @ uname @ apos @ '' using local auth'') st1))"

text \<open>The body of the \<open>try\<close> block of \<open>_authenticate_ldap\<close>.\<close>

definition authenticate_ldap_try :: "env \<Rightarrow> request \<Rightarrow> string \<Rightarrow> string \<Rightarrow> bool \<Rightarrow> state \<Rightarrow> response result" where
  "authenticate_ldap_try env req uname passwd local_fallback st =
     (case ldap_authenticate env uname passwd of
        Inl e \<Rightarrow> (Inl e, st)
      | Inr False \<Rightarrow>
          if local_fallback then
            authenticate_password env req uname passwd
              (track_activity
                 (''wrong login password for user '' @ apos @ uname @ apos @
                  '' using LDAP auth - falling back to local based on settings'') st)
          else
            (Inr (render_template_login (Some wrong_credentials)),
             track_activity
               (''wrong login password for user '' @ apos @ uname @ apos @ '' using LDAP auth'') st)
      | Inr True \<Rightarrow>
          (case retrieve_user_by_username uname st of
             (None, st1) \<Rightarrow> (Inr (render_template_login (Some wrong_credentials)), st1)
           | (Some u, st1) \<Rightarrow> wrap_login_user env req u st1))"

text \<open>The \<open>except Exception\<close> clause around it.\<close>

definition authenticate_ldap :: "env \<Rightarrow> request \<Rightarrow> string \<Rightarrow> string \<Rightarrow> bool \<Rightarrow> state \<Rightarrow> response result" where
  "authenticate_ldap env req uname passwd local_fallback st =
     (case authenticate_ldap_try env req uname passwd local_fallback st of
        (Inl e, st') \<Rightarrow>
          (Inr (render_template_login (Some ldap_unavailable)),
           st'\<lparr>error_log := error_log st' @ [exn_str e]\<rparr>)
      | (Inr r, st') \<Rightarrow> (Inr r, st'))"

definition login :: "env \<Rightarrow> request \<Rightarrow> state \<Rightarrow> response result" where
  "login env req st0 =
     (let st1 = st0\<lparr>session := (session st0)\<lparr>permanent := True\<rparr>\<rparr> in
      if current_user st1 \<noteq> None then (Inr (Redirect (UrlFor ''index.index'')), st1)
      else if \<not> form_is_submitted req \<and> \<not> form_validate req
      then (Inr (render_template_login None), st1)
      else
        if is_authentication_ldap env
        then authenticate_ldap env req (form_username req) (form_password req)
               (AUTHENTICATION_LOCAL_FALLBACK env) st1
        else authenticate_password env req (form_username req) (form_password req) st1)"

text \<open>
  Lines 182 to 184 of \<open>mfa_setup\<close>: a user without a secret gets a fresh one, committed
  at once. The result is the secret, the user object and the state.
\<close>

definition ensure_secret :: "env \<Rightarrow> User \<Rightarrow> state \<Rightarrow> string \<times> User \<times> state" where
  "ensure_secret env u st =
     (let fresh = (let u' = u\<lparr>mfa_secrets := Some (random_base32 env)\<rparr>
                   in (random_base32 env, u', (db_commit u' st)\<lparr>current_user := Some u'\<rparr>))
      in case mfa_secrets u of
           None \<Rightarrow> fresh
         | Some s \<Rightarrow> if s = [] then fresh else (s, u, st))"

text \<open>
  \<open>mfa_setup\<close> is behind \<open>@login_required\<close>: without a logged-in user the view is
  not entered. Inside, \<open>user\<close> is \<open>current_user\<close>.
\<close>

definition mfa_setup :: "env \<Rightarrow> request \<Rightarrow> state \<Rightarrow> response result" where
  "mfa_setup env req st0 =
     (case current_user st0 of
        None \<Rightarrow> (Inr Unauthorized, st0)
      | Some u0 \<Rightarrow>
          if mfa_form_submit_and_validate req then
            (case ensure_secret env u0 st0 of
               (secret, u1, st1) \<Rightarrow>
                 if totp_verify env secret (form_token req) then
                   (let u2 = u1\<lparr>mfa_enabled := True\<rparr>;
                        st2 = (db_commit u2 st1)\<lparr>current_user := Some u2\<rparr>;
                        st3 = track_activity (''MFA setup successful for user '' @ user u2) st2
                    in wrap_login_user env req u2 st3)
                 else
                   (Inr (RenderMfaSetup (mfa_secrets u1) (email u1)),
                    flash ''Invalid token. Please try again.'' ''danger'' st1))
          else (Inr (RenderMfaSetup (mfa_secrets u0) (email u0)), st0))"

text \<open>
  How \<open>mfa_verify\<close> ends: it returns a response, or it returns what \<open>wrap_login_user\<close>
  returns for a user (line 232).
\<close>

datatype outcome = Response response | WrapLoginUser User

text \<open>Lines 214 to 216 of \<open>mfa_verify\<close>: the user has no secret yet.\<close>

definition mfa_not_enabled :: "User \<Rightarrow> state \<Rightarrow> (exn + outcome) \<times> state" where
  "mfa_not_enabled u st =
     (case current_user_user st of
        Inl e \<Rightarrow> (Inl e, st)
      | Inr cu \<Rightarrow>
          (Inr (Response (Redirect (UrlFor ''mfa_setup''))),
           login_user u (track_activity (''MFA required but not enabled for user '' @ cu) st)))"

text \<open>Lines 218 to 239 of \<open>mfa_verify\<close>: the user has the secret \<open>secret\<close>.\<close>

definition mfa_verify_token :: "env \<Rightarrow> request \<Rightarrow> User \<Rightarrow> string \<Rightarrow> state \<Rightarrow> (exn + outcome) \<times> state" where
  "mfa_verify_token env req u secret st2 =
     (if mfa_form_submit_and_validate req then
        (if \<not> truthy (form_token req) then
           (Inr (Response RenderMfaVerify), flash ''Token is required.'' ''danger'' st2)
         else if totp_verify env secret (form_token req) then
           (let st3 = st2\<lparr>session := (session st2)\<lparr>username := None, mfa_verified := Some True\<rparr>\<rparr>
            in case current_user_user st3 of
                 Inl e \<Rightarrow> (Inl e, st3)
               | Inr cu \<Rightarrow>
                   (Inr (WrapLoginUser u), track_activity (''MFA verified for user '' @ cu) st3))
         else
           (case current_user_user st2 of
              Inl e \<Rightarrow> (Inl e, st2)
            | Inr cu \<Rightarrow>
                (Inr (Response RenderMfaVerify),
                 flash ''Invalid token. Please try again.'' ''danger''
                   (track_activity (''MFA invalid for user '' @ cu @ ''. Login aborted'') st2))))
      else (Inr (Response RenderMfaVerify), st2))"

text \<open>
  \<open>mfa_verify\<close> up to its last step: the response it returns, or the user it calls
  \<open>wrap_login_user\<close> with, and the state at that moment.
\<close>

definition mfa_verify_steps :: "env \<Rightarrow> request \<Rightarrow> state \<Rightarrow> (exn + outcome) \<times> state" where
  "mfa_verify_steps env req st0 =
     (case username (session st0) of
        None \<Rightarrow> (Inr (Response (Redirect (UrlFor ''login''))), st0)
      | Some uname \<Rightarrow>
          (let st1 = st0\<lparr>session := (session st0)\<lparr>mfa_verified := Some False\<rparr>\<rparr> in
           case retrieve_user_by_username uname st1 of
             (None, st2) \<Rightarrow>
               (Inl (AttributeError (none_has_no_attribute ''mfa_secrets'')), st2)
           | (Some u, st2) \<Rightarrow>
               (case mfa_secrets u of
                  None \<Rightarrow> mfa_not_enabled u st2
                | Some secret \<Rightarrow>
                    if secret = [] then mfa_not_enabled u st2
                    else mfa_verify_token env req u secret st2)))"

definition mfa_verify :: "env \<Rightarrow> request \<Rightarrow> state \<Rightarrow> response result" where
  "mfa_verify env req st0 =
     (case mfa_verify_steps env req st0 of
        (Inl e, st) \<Rightarrow> (Inl e, st)
      | (Inr (Response r), st) \<Rightarrow> (Inr r, st)
      | (Inr (WrapLoginUser u), st) \<Rightarrow> wrap_login_user env req u st)"

text \<open>
  The text of the activity entries that \<open>wrap_login_user\<close> writes at lines 148 and 164,
  for the name \<open>x\<close> put into it.
\<close>

definition logged_in_message :: "string \<Rightarrow> string" where
  "logged_in_message x = ''user '' @ apos @ x @ apos @ '' successfully logged-in''"

subsection \<open>Example values\<close>

text \<open>
  A small installation for evaluating the handlers: two cases with ids 7 and 3, the user
  \<open>alice\<close> with an MFA secret and no case context yet, the user \<open>bob\<close> without a secret
  and with case 7. In \<open>ex_env\<close> the directory accepts nobody, a password hash is the
  password itself and the one valid token is \<open>123456\<close>.
\<close>

definition ex_env :: env where
  "ex_env = \<lparr>ldap_authenticate = (\<lambda>u p. Inr False),
     check_password_hash = (\<lambda>h p. h = p),
     ac_get_effective_permissions_of_user = (\<lambda>u. 0),
     totp_verify = (\<lambda>s t. t = Some ''123456''),
     random_base32 = ''JBSWY3DPEHPK3PXP'',
     is_authentication_ldap = True,
     AUTHENTICATION_LOCAL_FALLBACK = True,
     str_user = (\<lambda>u. user u),
     netloc_invalid = (\<lambda>n. False)\<rparr>"

definition alice :: User where
  "alice = \<lparr>user_id = 1, user = ''alice'', password = ''pw'', is_service_account = False,
     mfa_secrets = Some ''ALICESECRET'', mfa_enabled = True, email = ''alice@example.org'',
     ctx_case = None, ctx_human_case = None, active = True\<rparr>"

definition bob :: User where
  "bob = \<lparr>user_id = 2, user = ''bob'', password = ''pw2'', is_service_account = False,
     mfa_secrets = None, mfa_enabled = False, email = ''bob@example.org'',
     ctx_case = Some 7, ctx_human_case = Some ''seven'', active = True\<rparr>"

definition ex_session :: Session where
  "ex_session = \<lparr>username = None, mfa_verified = None, permissions = None,
     current_case = None, permanent = False\<rparr>"

definition ex_state :: state where
  "ex_state = \<lparr>session = ex_session, current_user = None, users = [alice, bob],
     cases = [\<lparr>case_id = 7, name = ''seven''\<rparr>, \<lparr>case_id = 3, name = ''three''\<rparr>],
     activities = [], error_log = [], flashes = []\<rparr>"

definition ex_req :: request where
  "ex_req = \<lparr>args_next = None, form_username = ''alice'', form_password = ''pw'',
     form_is_submitted = True, form_validate = True,
     mfa_form_submit_and_validate = True, form_token = Some ''123456''\<rparr>"

definition ex_req_bob :: request where
  "ex_req_bob = ex_req\<lparr>form_username := ''bob'', form_password := ''pw2''\<rparr>"

definition ex_req_evil :: request where
  "ex_req_evil = ex_req\<lparr>args_next := Some ''http://evil.example/x''\<rparr>"

definition ex_req_cid :: request where
  "ex_req_cid = ex_req\<lparr>args_next := Some ''/cases?cid=5''\<rparr>"

definition ex_req_cases :: request where
  "ex_req_cases = ex_req\<lparr>args_next := Some ''/cases''\<rparr>"

text \<open>
  Requests whose \<open>next\<close> has a query string already, has a fragment, or has a network
  location with an opening square bracket only.
\<close>

definition ex_req_paged :: request where
  "ex_req_paged = ex_req\<lparr>args_next := Some ''/cases?page=2''\<rparr>"

definition ex_req_fragment :: request where
  "ex_req_fragment = ex_req\<lparr>args_next := Some ''/cases#top''\<rparr>"

definition ex_req_bracket :: request where
  "ex_req_bracket = ex_req\<lparr>args_next := Some ''//[evil.example''\<rparr>"

text \<open>A directory that cannot be reached, and one that accepts everybody.\<close>

definition ex_env_fault :: env where
  "ex_env_fault = ex_env\<lparr>ldap_authenticate := (\<lambda>u p. Inl (OtherError ''connection refused''))\<rparr>"

definition ex_env_accept :: env where
  "ex_env_accept = ex_env\<lparr>ldap_authenticate := (\<lambda>u p. Inr True)\<rparr>"

text \<open>Local authentication.\<close>

definition ex_env_local :: env where
  "ex_env_local = ex_env\<lparr>is_authentication_ldap := False\<rparr>"

text \<open>The session after an MFA verification; the same with an empty case table.\<close>

definition ex_verified_state :: state where
  "ex_verified_state = ex_state\<lparr>session := ex_session\<lparr>mfa_verified := Some True\<rparr>\<rparr>"

definition ex_no_cases_state :: state where
  "ex_no_cases_state = ex_verified_state\<lparr>cases := []\<rparr>"

text \<open>
  \<open>bob\<close> on the setup page, logged in there by the verification page, which has reset
  the marker; a session with pending user \<open>alice\<close>; a session whose pending user \<open>carol\<close>
  is not in the user table.
\<close>

definition ex_setup_state :: state where
  "ex_setup_state = ex_state\<lparr>current_user := Some bob,
     session := ex_session\<lparr>username := Some ''bob'', mfa_verified := Some False\<rparr>\<rparr>"

definition bob_enrolled :: User where
  "bob_enrolled = bob\<lparr>mfa_secrets := Some ''JBSWY3DPEHPK3PXP'', mfa_enabled := True\<rparr>"

definition ex_pending_state :: state where
  "ex_pending_state = ex_state\<lparr>session := ex_session\<lparr>username := Some ''alice''\<rparr>\<rparr>"

definition ex_stale_state :: state where
  "ex_stale_state = ex_state\<lparr>session := ex_session\<lparr>username := Some ''carol''\<rparr>\<rparr>"

text \<open>\<open>alice\<close> logged in, her name in the session, on the verification page once more.\<close>

definition ex_logged_in_state :: state where
  "ex_logged_in_state = ex_state\<lparr>current_user := Some alice,
     session := ex_session\<lparr>username := Some ''alice'', mfa_verified := Some True\<rparr>\<rparr>"

section \<open>Properties\<close>

subsection \<open>Auxiliary facts\<close>

lemma dropWhile_append_stop:
  "\<not> P b \<Longrightarrow> dropWhile P (u @ b # r) = dropWhile P u @ b # r"
  by (induction u) auto

lemma takeWhile_append_stop:
  "\<not> P b \<Longrightarrow> takeWhile P (a @ b # c) = takeWhile P a"
  by (induction a) auto

lemma qmark_facts:
  "\<not> c0_control_or_space (CHR ''?'')" "\<not> unsafe_url_byte (CHR ''?'')"
  "\<not> scheme_char (CHR ''?'')" "netloc_delim (CHR ''?'')"
  by (simp_all add: c0_control_or_space_def unsafe_url_byte_def scheme_char_def
        ascii_alpha_def netloc_delim_def)

text \<open>A question mark and what follows it, put behind a URL, is no part of its scheme.\<close>

lemma strip_scheme_append_query:
  "strip_scheme (v @ CHR ''?'' # r) = strip_scheme v @ CHR ''?'' # r"
proof (cases "CHR '':'' \<in> set v")
  case True
  then have pre: "takeWhile (\<lambda>c. c \<noteq> CHR '':'') (v @ CHR ''?'' # r)
                  = takeWhile (\<lambda>c. c \<noteq> CHR '':'') v"
    by (simp add: takeWhile_append1)
  have "length (takeWhile (\<lambda>c. c \<noteq> CHR '':'') v) < length v"
    using True by (induction v) auto
  then show ?thesis
    using True by (simp add: strip_scheme_def pre Let_def)
next
  case False
  have pre: "takeWhile (\<lambda>c. c \<noteq> CHR '':'') (v @ CHR ''?'' # r)
             = v @ CHR ''?'' # takeWhile (\<lambda>c. c \<noteq> CHR '':'') r"
    using False by (induction v) auto
  show ?thesis
    using False by (simp add: strip_scheme_def pre Let_def qmark_facts)
qed

lemma netloc_of_append_query:
  "(if take 2 (x @ CHR ''?'' # r) = ''//'' then splitnetloc (x @ CHR ''?'' # r) else [])
   = (if take 2 x = ''//'' then splitnetloc x else [])"
proof (cases x)
  case Nil
  then show ?thesis by simp
next
  case (Cons a y)
  show ?thesis
  proof (cases y)
    case Nil
    with Cons show ?thesis by simp
  next
    case (Cons b z)
    with \<open>x = a # y\<close> show ?thesis
      by (simp add: splitnetloc_def takeWhile_append_stop qmark_facts)
  qed
qed

lemma find_netloc_append_query:
  "find_netloc (u @ CHR ''?'' # r) = find_netloc u"
proof -
  have d: "dropWhile c0_control_or_space (u @ CHR ''?'' # r)
           = dropWhile c0_control_or_space u @ CHR ''?'' # r"
    by (rule dropWhile_append_stop) (rule qmark_facts)
  show ?thesis
    unfolding find_netloc_def Let_def d
    by (simp only: filter_append filter.simps qmark_facts
          if_True not_False_eq_True strip_scheme_append_query netloc_of_append_query)
qed

text \<open>So \<open>urlsplit\<close> finds the same network location, or raises alike, with and without it.\<close>

lemma urlsplit_netloc_append_query:
  "urlsplit_netloc env (u @ CHR ''?'' # r) = urlsplit_netloc env u"
  by (simp only: urlsplit_netloc_def find_netloc_append_query)

lemma sort_key_first:
  assumes "cs \<noteq> []"
  shows "\<exists>c rest. sort_key case_id cs = c # rest \<and> c \<in> set cs \<and>
                  (\<forall>d \<in> set cs. case_id c \<le> case_id d)"
proof (cases "sort_key case_id cs")
  case Nil
  then have "set cs = {}"
    using set_sort[of case_id cs] by simp
  with assms show ?thesis by simp
next
  case (Cons c rest)
  have mem: "set (c # rest) = set cs"
    using Cons set_sort[of case_id cs] by simp
  have "sorted (map case_id (c # rest))"
    using Cons sorted_sort_key[of case_id cs] by simp
  then have "\<forall>d \<in> set (c # rest). case_id c \<le> case_id d"
    by auto
  with mem Cons show ?thesis
    by auto
qed

lemma redirect_target_next:
  assumes "args_next req = Some nxt" and "nxt \<noteq> []" and "ctx_case u = Some cid"
  shows "redirect_target env req u =
     (case urlsplit_netloc env nxt of
        Inl e \<Rightarrow> Inl e
      | Inr n \<Rightarrow>
          if n \<noteq> [] then Inr (UrlForCid ''index.index'' (Some cid))
          else if contains ''cid='' nxt then Inr (Url nxt)
          else Inr (Url (nxt @ ''?cid='' @ str_int cid)))"
proof (cases "contains ''cid='' nxt")
  case True
  with assms show ?thesis
    by (simp add: redirect_target_def split: sum.splits)
next
  case False
  have "urlsplit_netloc env (nxt @ ''?cid='' @ str_int cid) = urlsplit_netloc env nxt"
    using urlsplit_netloc_append_query[of env nxt "''cid='' @ str_int cid"] by simp
  with False assms show ?thesis
    by (simp add: redirect_target_def str_opt_int_def split: sum.splits)
qed

lemma redirect_target_no_next:
  assumes "args_next req = None \<or> args_next req = Some []"
  shows "redirect_target env req u = Inr (UrlForCid ''index.index'' (ctx_case u))"
  using assms by (auto simp: redirect_target_def)

lemma wrap_login_user_gate:
  assumes "mfa_verified (session st) \<noteq> Some True"
  shows "wrap_login_user env req u st =
           (Inr (Redirect (UrlFor ''mfa_verify'')),
            st\<lparr>session := (session st)\<lparr>username := Some (user u)\<rparr>\<rparr>)"
  using assms by (cases "mfa_verified (session st)") (auto simp: wrap_login_user_def Let_def)

lemma resolve_case_fst_cong:
  "cases st' = cases st \<Longrightarrow> fst (resolve_case u st') = fst (resolve_case u st)"
  by (simp add: resolve_case_def first_case_by_id_def Let_def split: list.splits)

lemma resolve_case_cases:
  obtains (raised) "ctx_case u = None" "cases st = []"
      "resolve_case u st = (Inl (AttributeError (none_has_no_attribute ''case_id'')), st)"
  | (assigned) c where "ctx_case u = None" "c \<in> set (cases st)"
      "\<forall>d \<in> set (cases st). case_id c \<le> case_id d"
      "resolve_case u st =
         (Inr (u\<lparr>ctx_case := Some (case_id c), ctx_human_case := Some (name c)\<rparr>),
          (db_commit (u\<lparr>ctx_case := Some (case_id c), ctx_human_case := Some (name c)\<rparr>) st)
            \<lparr>current_user := Some (u\<lparr>ctx_case := Some (case_id c), ctx_human_case := Some (name c)\<rparr>)\<rparr>)"
  | (kept) k where "ctx_case u = Some k" "resolve_case u st = (Inr u, st)"
proof (cases "ctx_case u")
  case None
  show ?thesis
  proof (cases "cases st = []")
    case True
    with None show ?thesis
      by (intro raised) (simp_all add: resolve_case_def first_case_by_id_def)
  next
    case False
    from sort_key_first[OF False] obtain c rest where
      c: "sort_key case_id (cases st) = c # rest" "c \<in> set (cases st)"
         "\<forall>d \<in> set (cases st). case_id c \<le> case_id d"
      by blast
    with None show ?thesis
      by (intro assigned[of c]) (simp_all add: resolve_case_def first_case_by_id_def Let_def)
  qed
next
  case (Some k)
  then show ?thesis
    by (intro kept[of k]) (simp_all add: resolve_case_def)
qed

lemma wrap_login_user_verified:
  assumes "mfa_verified (session st) = Some True"
  shows "wrap_login_user env req u st =
     (let st4 = (track_activity (''user '' @ apos @ user u @ apos @ '' successfully logged-in'')
                   (login_user u (st\<lparr>session := (session st)\<lparr>username := Some (user u)\<rparr>\<rparr>)))
                 \<lparr>session := (session st)\<lparr>username := Some (user u),
                     permissions := Some (ac_get_effective_permissions_of_user env u)\<rparr>\<rparr>
      in case resolve_case u st4 of
           (Inl e, st5) \<Rightarrow> (Inl e, st5)
         | (Inr u', st5) \<Rightarrow>
             (case redirect_target env req u' of
                Inl e \<Rightarrow> Inl e
              | Inr loc \<Rightarrow> Inr (Redirect loc),
              track_activity (''user '' @ apos @ str_user env u' @ apos @ '' successfully logged-in'')
                (st5\<lparr>session := (session st5)\<lparr>current_case := Some
                   \<lparr>cc_case_name = ctx_human_case u', cc_case_info = [], cc_case_id = ctx_case u'\<rparr>\<rparr>\<rparr>)))"
  using assms
  by (simp add: wrap_login_user_def Let_def login_user_def track_activity_def
        split: prod.splits sum.splits)

lemma find_map_replace:
  assumes "find P xs = Some u" and "P u'"
  shows "find P (map (\<lambda>v. if f v = f u then u' else v) xs) = Some u'"
  using assms by (induction xs) (auto split: if_splits)

lemma find_SomeD: "find P xs = Some u \<Longrightarrow> P u"
  by (induction xs) (auto split: if_splits)

lemma wrap_login_user_no_case:
  assumes "mfa_verified (session st) = Some True" and "ctx_case u = None" and "cases st = []"
  shows "fst (wrap_login_user env req u st) = Inl (AttributeError (none_has_no_attribute ''case_id''))"
  using assms
  by (simp add: wrap_login_user_def Let_def resolve_case_def first_case_by_id_def
        login_user_def track_activity_def)

lemma redirect_target_raises:
  "redirect_target env req t = Inl e \<Longrightarrow> \<exists>x. e = ValueError x"
  by (auto simp: redirect_target_def urlsplit_netloc_def Let_def
        split: option.splits if_splits sum.splits)

lemma wrap_login_user_attribute_error:
  assumes "fst (wrap_login_user env req u st) = Inl (AttributeError m)"
  shows "mfa_verified (session st) = Some True \<and> ctx_case u = None \<and> cases st = []"
proof -
  have v: "mfa_verified (session st) = Some True"
    using assms wrap_login_user_gate[of st env req u]
    by (cases "mfa_verified (session st) = Some True") auto
  let ?st4 = "(track_activity (''user '' @ apos @ user u @ apos @ '' successfully logged-in'')
                   (login_user u (st\<lparr>session := (session st)\<lparr>username := Some (user u)\<rparr>\<rparr>)))
                 \<lparr>session := (session st)\<lparr>username := Some (user u),
                     permissions := Some (ac_get_effective_permissions_of_user env u)\<rparr>\<rparr>"
  have cs: "cases ?st4 = cases st"
    by (simp add: track_activity_def login_user_def)
  note w = wrap_login_user_verified[OF v, of env req u]
  show ?thesis
  proof (cases u ?st4 rule: resolve_case_cases)
    case raised
    with cs v show ?thesis by simp
  next
    case (assigned c)
    have "\<exists>x. AttributeError m = ValueError x"
      using assms unfolding w Let_def assigned(4)
      by (auto split: sum.splits dest: redirect_target_raises)
    then show ?thesis by simp
  next
    case (kept k)
    have "\<exists>x. AttributeError m = ValueError x"
      using assms unfolding w Let_def kept(2)
      by (auto split: sum.splits dest: redirect_target_raises)
    then show ?thesis by simp
  qed
qed

lemma wrap_login_user_username:
  "username (session (snd (wrap_login_user env req u st))) = Some (user u)"
proof (cases "mfa_verified (session st) = Some True")
  case False
  then show ?thesis by (simp add: wrap_login_user_gate)
next
  case True
  let ?st4 = "(track_activity (''user '' @ apos @ user u @ apos @ '' successfully logged-in'')
                   (login_user u (st\<lparr>session := (session st)\<lparr>username := Some (user u)\<rparr>\<rparr>)))
                 \<lparr>session := (session st)\<lparr>username := Some (user u),
                     permissions := Some (ac_get_effective_permissions_of_user env u)\<rparr>\<rparr>"
  note w = wrap_login_user_verified[OF True, of env req u]
  show ?thesis
  proof (cases u ?st4 rule: resolve_case_cases)
    case raised
    show ?thesis unfolding w Let_def raised(3) by simp
  next
    case (assigned c)
    show ?thesis unfolding w Let_def assigned(4)
      by (simp add: track_activity_def db_commit_def)
  next
    case (kept k)
    show ?thesis unfolding w Let_def kept(2)
      by (simp add: track_activity_def)
  qed
qed


lemma retrieve_user_by_username_pending:
  "current_user (snd (retrieve_user_by_username uname st)) = current_user st"
  "session (snd (retrieve_user_by_username uname st)) = session st"
  "logged_in_message x \<notin> set (activities st) \<Longrightarrow>
     logged_in_message x \<notin> set (activities (snd (retrieve_user_by_username uname st)))"
  by (auto simp: retrieve_user_by_username_def track_activity_def logged_in_message_def
        split: option.splits)

lemma authenticate_password_pending:
  assumes "mfa_verified (session st) \<noteq> Some True"
  shows "current_user (snd (authenticate_password env req uname passwd st)) = current_user st"
    and "mfa_verified (session (snd (authenticate_password env req uname passwd st)))
           = mfa_verified (session st)"
    and "logged_in_message x \<notin> set (activities st) \<Longrightarrow>
           logged_in_message x \<notin> set (activities (snd (authenticate_password env req uname passwd st)))"
  using assms
  by (auto simp: authenticate_password_def retrieve_user_by_username_def track_activity_def
        wrap_login_user_gate logged_in_message_def split: option.splits)

lemma authenticate_ldap_pending:
  assumes "mfa_verified (session st) \<noteq> Some True"
  shows "current_user (snd (authenticate_ldap env req uname passwd fb st)) = current_user st"
    and "mfa_verified (session (snd (authenticate_ldap env req uname passwd fb st)))
           = mfa_verified (session st)"
    and "logged_in_message x \<notin> set (activities st) \<Longrightarrow>
           logged_in_message x \<notin> set (activities (snd (authenticate_ldap env req uname passwd fb st)))"
proof -
  let ?st' = "track_activity
                 (''wrong login password for user '' @ apos @ uname @ apos @
                  '' using LDAP auth - falling back to local based on settings'') st"
  have p: "mfa_verified (session ?st') \<noteq> Some True" "current_user ?st' = current_user st"
    "mfa_verified (session ?st') = mfa_verified (session st)"
    "logged_in_message x \<notin> set (activities st) \<Longrightarrow> logged_in_message x \<notin> set (activities ?st')"
    using assms by (auto simp: track_activity_def logged_in_message_def)
  note ap = authenticate_password_pending[OF p(1), where env = env and req = req and uname = uname and passwd = passwd]
  have try_facts:
    "current_user (snd (authenticate_ldap_try env req uname passwd fb st)) = current_user st
     \<and> mfa_verified (session (snd (authenticate_ldap_try env req uname passwd fb st)))
           = mfa_verified (session st)
     \<and> (logged_in_message x \<notin> set (activities st) \<longrightarrow>
           logged_in_message x \<notin> set (activities (snd (authenticate_ldap_try env req uname passwd fb st))))"
  proof (cases "ldap_authenticate env uname passwd")
    case (Inl e)
    then show ?thesis by (simp add: authenticate_ldap_try_def)
  next
    case (Inr b)
    show ?thesis
    proof (cases b)
      case False
      with Inr show ?thesis
        using ap p
        by (auto simp: authenticate_ldap_try_def track_activity_def logged_in_message_def)
    next
      case True
      with Inr show ?thesis
        using assms
        by (auto simp: authenticate_ldap_try_def retrieve_user_by_username_def track_activity_def
              wrap_login_user_gate logged_in_message_def split: option.splits)
    qed
  qed
  show "current_user (snd (authenticate_ldap env req uname passwd fb st)) = current_user st"
    and "mfa_verified (session (snd (authenticate_ldap env req uname passwd fb st)))
           = mfa_verified (session st)"
    and "logged_in_message x \<notin> set (activities st) \<Longrightarrow>
           logged_in_message x \<notin> set (activities (snd (authenticate_ldap env req uname passwd fb st)))"
    using try_facts
    by (auto simp: authenticate_ldap_def split: prod.splits sum.splits)
qed

lemma login_pending:
  assumes "mfa_verified (session st) \<noteq> Some True"
  shows "current_user (snd (login env req st)) = current_user st"
    and "mfa_verified (session (snd (login env req st))) = mfa_verified (session st)"
    and "logged_in_message x \<notin> set (activities st) \<Longrightarrow>
           logged_in_message x \<notin> set (activities (snd (login env req st)))"
proof -
  let ?st1 = "st\<lparr>session := (session st)\<lparr>permanent := True\<rparr>\<rparr>"
  have p: "mfa_verified (session ?st1) \<noteq> Some True" using assms by simp
  note a = authenticate_password_pending[OF p, where env = env and req = req]
    authenticate_ldap_pending[OF p, where env = env and req = req]
  show "current_user (snd (login env req st)) = current_user st"
    and "mfa_verified (session (snd (login env req st))) = mfa_verified (session st)"
    and "logged_in_message x \<notin> set (activities st) \<Longrightarrow>
           logged_in_message x \<notin> set (activities (snd (login env req st)))"
    using a by (auto simp: login_def Let_def render_template_login_def)
qed

lemma mfa_verify_anonymous:
  assumes "current_user st = None"
  shows "current_user (snd (mfa_verify env req st)) = None"
    and "logged_in_message x \<notin> set (activities st) \<Longrightarrow>
           logged_in_message x \<notin> set (activities (snd (mfa_verify env req st)))"
    and "mfa_verified (session (snd (mfa_verify env req st))) = Some True \<Longrightarrow>
           mfa_verified (session st) = Some True \<and> username (session st) = None
           \<or> (\<exists>uname v secret. username (session st) = Some uname
                \<and> get_active_user_by_login uname st = Some v
                \<and> mfa_secrets v = Some secret \<and> totp_verify env secret (form_token req))"
  using assms
  by (auto simp: mfa_verify_def mfa_verify_steps_def mfa_verify_token_def mfa_not_enabled_def
        retrieve_user_by_username_def get_active_user_by_login_def current_user_user_def
        track_activity_def flash_def Let_def logged_in_message_def
        split: option.splits sum.splits prod.splits if_splits)

lemma mfa_setup_anonymous:
  "current_user st = None \<Longrightarrow> mfa_setup env req st = (Inr Unauthorized, st)"
  by (simp add: mfa_setup_def)

lemma str_int_3: "str_int 3 = ''3''"
  by (simp add: str_int_def str_nat.simps[of 3] digit_char_def)

lemmas ex_defs = ex_env_def ex_state_def ex_session_def ex_req_def alice_def bob_def
  ex_req_bob_def ex_req_evil_def ex_req_cid_def ex_req_cases_def ex_req_paged_def
  ex_req_fragment_def ex_req_bracket_def ex_logged_in_state_def ex_env_fault_def ex_env_accept_def
  ex_env_local_def ex_verified_state_def ex_no_cases_state_def ex_setup_state_def
  ex_pending_state_def ex_stale_state_def bob_enrolled_def

lemmas url_defs = urlsplit_netloc_def find_netloc_def strip_scheme_def splitnetloc_def
  netloc_delim_def c0_control_or_space_def unsafe_url_byte_def ascii_alpha_def scheme_char_def

lemmas handler_defs = authenticate_password_def retrieve_user_by_username_def
  get_active_user_by_login_def wrap_login_user_def track_activity_def render_template_login_def
  wrong_credentials_def login_user_def resolve_case_def first_case_by_id_def db_commit_def
  redirect_target_def

subsection \<open>Directory authentication\<close>

text \<open>
  Claim C3. When the directory call raises, \<open>_authenticate_ldap\<close> answers with the login
  form and the message that LDAP authentication is unavailable, whatever the fallback
  setting; this is not the wrong-credentials form. The text of the fault is appended to
  the server log and to nothing else: the response is the same for every fault, and the
  rest of the state (session, activity trail, flashed messages) is as before.
\<close>

theorem directory_fault_service_unavailable:
  assumes "ldap_authenticate env uname passwd = Inl e"
  shows "authenticate_ldap env req uname passwd local_fallback st =
           (Inr (RenderLogin (Some ''LDAP authentication unavailable. Check server logs'')),
            st\<lparr>error_log := error_log st @ [exn_str e]\<rparr>)
         \<and> fst (authenticate_ldap env req uname passwd local_fallback st)
             \<noteq> Inr (RenderLogin (Some ''Wrong credentials. Please try again.''))"
  using assms
  by (simp add: authenticate_ldap_def authenticate_ldap_try_def render_template_login_def
        ldap_unavailable_def)

theorem directory_fault_service_unavailable_witness:
  "ldap_authenticate ex_env_fault ''alice'' ''pw'' = Inl (OtherError ''connection refused'')
   \<and> authenticate_ldap ex_env_fault ex_req ''alice'' ''pw'' True ex_state =
         (Inr (RenderLogin (Some ''LDAP authentication unavailable. Check server logs'')),
          ex_state\<lparr>error_log := [''connection refused'']\<rparr>)"
  using directory_fault_service_unavailable
    [of ex_env_fault "''alice''" "''pw''" "OtherError ''connection refused''" ex_req True ex_state]
  by (simp add: ex_env_fault_def ex_state_def)

text \<open>
  Claim C4. When the directory reports an authentication failure: with local fallback,
  \<open>_authenticate_ldap\<close> records the fallback in the activity trail, runs
  \<open>_authenticate_password\<close> with the same username and password and returns the response
  and the state that call returns (should that call raise, the \<open>except\<close> clause turns the
  exception into the LDAP-unavailable form); without local fallback it returns the
  wrong-credentials form after one activity entry, and nothing of the local check is run.
\<close>

theorem directory_failure_fallback:
  assumes "ldap_authenticate env uname passwd = Inr False"
  shows "(local_fallback \<longrightarrow>
            authenticate_ldap env req uname passwd local_fallback st =
              (case authenticate_password env req uname passwd
                      (track_activity
                         (''wrong login password for user '' @ apos @ uname @ apos @
                          '' using LDAP auth - falling back to local based on settings'') st) of
                 (Inr r, st') \<Rightarrow> (Inr r, st')
               | (Inl e, st') \<Rightarrow>
                   (Inr (RenderLogin (Some ''LDAP authentication unavailable. Check server logs'')),
                    st'\<lparr>error_log := error_log st' @ [exn_str e]\<rparr>)))
       \<and> (\<not> local_fallback \<longrightarrow>
            authenticate_ldap env req uname passwd local_fallback st =
              (Inr (RenderLogin (Some ''Wrong credentials. Please try again.'')),
               track_activity
                 (''wrong login password for user '' @ apos @ uname @ apos @ '' using LDAP auth'') st))"
  using assms
  by (simp add: authenticate_ldap_def authenticate_ldap_try_def render_template_login_def
        ldap_unavailable_def wrong_credentials_def split: prod.splits sum.splits)

theorem directory_failure_fallback_witness:
  "ldap_authenticate ex_env ''alice'' ''pw'' = Inr False
   \<and> fst (authenticate_ldap ex_env ex_req ''alice'' ''pw'' True ex_state)
       = Inr (Redirect (UrlFor ''mfa_verify''))
   \<and> fst (authenticate_ldap ex_env ex_req ''alice'' ''wrong'' True ex_state)
       = Inr (RenderLogin (Some ''Wrong credentials. Please try again.''))
   \<and> length (activities (snd (authenticate_ldap ex_env ex_req ''alice'' ''wrong'' True ex_state))) = 2
   \<and> fst (authenticate_ldap ex_env ex_req ''alice'' ''pw'' False ex_state)
       = Inr (RenderLogin (Some ''Wrong credentials. Please try again.''))
   \<and> length (activities (snd (authenticate_ldap ex_env ex_req ''alice'' ''pw'' False ex_state))) = 1"
  using directory_failure_fallback [of ex_env "''alice''" "''pw''" True ex_req ex_state]
        directory_failure_fallback [of ex_env "''alice''" "''wrong''" True ex_req ex_state]
        directory_failure_fallback [of ex_env "''alice''" "''pw''" False ex_req ex_state]
  by (simp add: ex_defs handler_defs Let_def)

text \<open>
  Claim C10. The \<open>except\<close> clause of \<open>_authenticate_ldap\<close> encloses the whole body: the
  function never raises; an exception of \<open>wrap_login_user\<close> after a successful directory
  authentication, and one of the local fallback path, is answered with the
  LDAP-unavailable login form, its text going to the server log; this includes the
  fault of a user without case context when the case table is empty.
\<close>

theorem authenticate_ldap_catches_everything:
  "(\<exists>r. fst (authenticate_ldap env req uname passwd local_fallback st) = Inr r)
   \<and> (\<forall>u e st'. ldap_authenticate env uname passwd = Inr True
         \<and> get_active_user_by_login uname st = Some u
         \<and> wrap_login_user env req u st = (Inl e, st') \<longrightarrow>
         authenticate_ldap env req uname passwd local_fallback st =
           (Inr (RenderLogin (Some ''LDAP authentication unavailable. Check server logs'')),
            st'\<lparr>error_log := error_log st' @ [exn_str e]\<rparr>))
   \<and> (\<forall>u. ldap_authenticate env uname passwd = Inr True
         \<and> get_active_user_by_login uname st = Some u
         \<and> mfa_verified (session st) = Some True \<and> ctx_case u = None \<and> cases st = [] \<longrightarrow>
         fst (authenticate_ldap env req uname passwd local_fallback st) =
           Inr (RenderLogin (Some ''LDAP authentication unavailable. Check server logs'')))
   \<and> (\<forall>e st'. ldap_authenticate env uname passwd = Inr False \<and> local_fallback
         \<and> authenticate_password env req uname passwd
               (track_activity
                  (''wrong login password for user '' @ apos @ uname @ apos @
                   '' using LDAP auth - falling back to local based on settings'') st) = (Inl e, st') \<longrightarrow>
         authenticate_ldap env req uname passwd local_fallback st =
           (Inr (RenderLogin (Some ''LDAP authentication unavailable. Check server logs'')),
            st'\<lparr>error_log := error_log st' @ [exn_str e]\<rparr>))"
proof (intro conjI allI impI)
  show "\<exists>r. fst (authenticate_ldap env req uname passwd local_fallback st) = Inr r"
    by (simp add: authenticate_ldap_def split: prod.splits sum.splits)
next
  fix u e st'
  assume "ldap_authenticate env uname passwd = Inr True
         \<and> get_active_user_by_login uname st = Some u
         \<and> wrap_login_user env req u st = (Inl e, st')"
  then show "authenticate_ldap env req uname passwd local_fallback st =
           (Inr (RenderLogin (Some ''LDAP authentication unavailable. Check server logs'')),
            st'\<lparr>error_log := error_log st' @ [exn_str e]\<rparr>)"
    by (simp add: authenticate_ldap_def authenticate_ldap_try_def retrieve_user_by_username_def
          render_template_login_def ldap_unavailable_def)
next
  fix u
  assume a: "ldap_authenticate env uname passwd = Inr True
         \<and> get_active_user_by_login uname st = Some u
         \<and> mfa_verified (session st) = Some True \<and> ctx_case u = None \<and> cases st = []"
  then have "fst (wrap_login_user env req u st) = Inl (AttributeError (none_has_no_attribute ''case_id''))"
    by (simp add: wrap_login_user_no_case)
  with a show "fst (authenticate_ldap env req uname passwd local_fallback st) =
           Inr (RenderLogin (Some ''LDAP authentication unavailable. Check server logs''))"
    by (cases "wrap_login_user env req u st")
       (simp add: authenticate_ldap_def authenticate_ldap_try_def retrieve_user_by_username_def
          render_template_login_def ldap_unavailable_def)
next
  fix e st'
  assume "ldap_authenticate env uname passwd = Inr False \<and> local_fallback
         \<and> authenticate_password env req uname passwd
               (track_activity
                  (''wrong login password for user '' @ apos @ uname @ apos @
                   '' using LDAP auth - falling back to local based on settings'') st) = (Inl e, st')"
  then show "authenticate_ldap env req uname passwd local_fallback st =
           (Inr (RenderLogin (Some ''LDAP authentication unavailable. Check server logs'')),
            st'\<lparr>error_log := error_log st' @ [exn_str e]\<rparr>)"
    by (simp add: authenticate_ldap_def authenticate_ldap_try_def render_template_login_def
          ldap_unavailable_def)
qed

theorem authenticate_ldap_catches_everything_witness:
  "ldap_authenticate ex_env_accept ''alice'' ''pw'' = Inr True
   \<and> get_active_user_by_login ''alice'' ex_no_cases_state = Some alice
   \<and> mfa_verified (session ex_no_cases_state) = Some True
   \<and> ctx_case alice = None \<and> cases ex_no_cases_state = []
   \<and> fst (wrap_login_user ex_env_accept ex_req alice
            ex_no_cases_state)
       = Inl (AttributeError (none_has_no_attribute ''case_id''))
   \<and> fst (authenticate_ldap ex_env_accept ex_req ''alice'' ''pw'' True
            ex_no_cases_state)
       = Inr (RenderLogin (Some ''LDAP authentication unavailable. Check server logs''))
   \<and> error_log (snd (authenticate_ldap ex_env_accept ex_req
            ''alice'' ''pw'' True ex_no_cases_state))
       = [none_has_no_attribute ''case_id'']"
  using authenticate_ldap_catches_everything
    [of ex_env_accept ex_req "''alice''" "''pw''" True
        ex_no_cases_state]
  by (simp add: ex_defs handler_defs Let_def authenticate_ldap_def
        authenticate_ldap_try_def ldap_unavailable_def)

subsection \<open>Session finalization\<close>

text \<open>
  Claim C6. While the session's mfa-verified marker is unset or false, \<open>wrap_login_user\<close>
  stores the pending username, redirects to the MFA verification entry point and stops:
  the logged-in user and the activity trail are as before, so there was no \<open>login_user\<close>
  call and no successful-login entry. Credentials are only verified for a session without
  a logged-in user (the login view sends a logged-in user away), and from such a session
  with the marker unset or false none of the three views logs a user in or writes a
  successful-login entry, whatever the request; the login view and the setup view leave
  the marker as it is, and the verification view leaves it true only if the token of the
  request verifies against the secret of the pending user. The session that
  \<open>wrap_login_user\<close> leaves is such a session again.
\<close>

theorem mfa_gate_stops_before_login:
  assumes "mfa_verified (session st) = None \<or> mfa_verified (session st) = Some False"
  shows "wrap_login_user env req u st =
           (Inr (Redirect (UrlFor ''mfa_verify'')),
            st\<lparr>session := (session st)\<lparr>username := Some (user u)\<rparr>\<rparr>)
       \<and> current_user (snd (wrap_login_user env req u st)) = current_user st
       \<and> activities (snd (wrap_login_user env req u st)) = activities st
       \<and> (current_user st = None \<longrightarrow>
             current_user (snd (login env req' st)) = None
           \<and> current_user (snd (mfa_verify env req' st)) = None
           \<and> current_user (snd (mfa_setup env req' st)) = None)
       \<and> (current_user st = None \<and> logged_in_message x \<notin> set (activities st) \<longrightarrow>
             logged_in_message x \<notin> set (activities (snd (login env req' st)))
           \<and> logged_in_message x \<notin> set (activities (snd (mfa_verify env req' st)))
           \<and> logged_in_message x \<notin> set (activities (snd (mfa_setup env req' st))))
       \<and> (current_user st = None \<longrightarrow>
             mfa_verified (session (snd (login env req' st))) = mfa_verified (session st)
           \<and> mfa_verified (session (snd (mfa_setup env req' st))) = mfa_verified (session st)
           \<and> (mfa_verified (session (snd (mfa_verify env req' st))) = Some True \<longrightarrow>
                 (\<exists>uname v secret. username (session st) = Some uname
                    \<and> get_active_user_by_login uname st = Some v
                    \<and> mfa_secrets v = Some secret
                    \<and> totp_verify env secret (form_token req'))))"
proof -
  have m: "mfa_verified (session st) \<noteq> Some True"
    using assms by auto
  have gate: "wrap_login_user env req u st =
           (Inr (Redirect (UrlFor ''mfa_verify'')),
            st\<lparr>session := (session st)\<lparr>username := Some (user u)\<rparr>\<rparr>)"
    by (rule wrap_login_user_gate[OF m])
  have who: "current_user (snd (login env req' st)) = None"
       "current_user (snd (mfa_verify env req' st)) = None"
       "current_user (snd (mfa_setup env req' st)) = None"
    if "current_user st = None"
    using that login_pending(1)[OF m, of env req'] mfa_verify_anonymous(1)[OF that, of env req']
      mfa_setup_anonymous[OF that, of env req']
    by simp_all
  have audit: "logged_in_message x \<notin> set (activities (snd (login env req' st)))"
       "logged_in_message x \<notin> set (activities (snd (mfa_verify env req' st)))"
       "logged_in_message x \<notin> set (activities (snd (mfa_setup env req' st)))"
    if "current_user st = None" "logged_in_message x \<notin> set (activities st)"
    using that login_pending(3)[OF m, of x env req'] mfa_verify_anonymous(2)[OF that(1), of x env req']
      mfa_setup_anonymous[OF that(1), of env req']
    by simp_all
  have marker: "mfa_verified (session (snd (login env req' st))) = mfa_verified (session st)"
       "mfa_verified (session (snd (mfa_setup env req' st))) = mfa_verified (session st)"
       "mfa_verified (session (snd (mfa_verify env req' st))) = Some True \<longrightarrow>
                 (\<exists>uname v secret. username (session st) = Some uname
                    \<and> get_active_user_by_login uname st = Some v
                    \<and> mfa_secrets v = Some secret
                    \<and> totp_verify env secret (form_token req'))"
    if "current_user st = None"
    using that m login_pending(2)[OF m, of env req'] mfa_verify_anonymous(3)[OF that, of env req']
      mfa_setup_anonymous[OF that, of env req']
    by auto
  show ?thesis
    unfolding gate using who audit marker by simp
qed

theorem mfa_gate_stops_before_login_witness:
  "mfa_verified (session ex_state) = None \<and> current_user ex_state = None
   \<and> wrap_login_user ex_env_local ex_req_bob bob ex_state =
        (Inr (Redirect (UrlFor ''mfa_verify'')),
         ex_state\<lparr>session := ex_session\<lparr>username := Some ''bob''\<rparr>\<rparr>)
   \<and> fst (login ex_env_local ex_req_bob ex_state) = Inr (Redirect (UrlFor ''mfa_verify''))
   \<and> current_user (snd (login ex_env_local ex_req_bob ex_state)) = None
   \<and> activities (snd (login ex_env_local ex_req_bob ex_state)) = []
   \<and> mfa_verified (session (snd (login ex_env_local ex_req_bob ex_state))) = None
   \<and> current_user (snd (mfa_verify ex_env_local ex_req_bob (snd (login ex_env_local ex_req_bob ex_state))))
       = None
   \<and> logged_in_message ''bob''
       \<notin> set (activities (snd (mfa_verify ex_env_local ex_req_bob
                                  (snd (login ex_env_local ex_req_bob ex_state)))))"
proof -
  have m: "mfa_verified (session ex_state) = None \<or> mfa_verified (session ex_state) = Some False"
    and m0: "mfa_verified (session ex_state) = None" and c0: "current_user ex_state = None"
    by (simp_all add: ex_defs)
  have l: "login ex_env_local ex_req_bob ex_state =
             (Inr (Redirect (UrlFor ''mfa_verify'')),
              ex_state\<lparr>session := ex_session\<lparr>username := Some ''bob'', permanent := True\<rparr>\<rparr>)"
    by (simp add: ex_defs login_def authenticate_password_def retrieve_user_by_username_def
          get_active_user_by_login_def wrap_login_user_def Let_def)
  have m1: "mfa_verified (session (snd (login ex_env_local ex_req_bob ex_state))) = None
            \<or> mfa_verified (session (snd (login ex_env_local ex_req_bob ex_state))) = Some False"
    and c1: "current_user (snd (login ex_env_local ex_req_bob ex_state)) = None"
    and a1: "logged_in_message ''bob'' \<notin> set (activities (snd (login ex_env_local ex_req_bob ex_state)))"
    unfolding l by (simp_all add: ex_defs)
  note t0 = mfa_gate_stops_before_login[OF m, of ex_env_local ex_req_bob bob ex_req_bob "''bob''"]
  note t1 = mfa_gate_stops_before_login[OF m1, of ex_env_local ex_req_bob bob ex_req_bob "''bob''"]
  have w: "wrap_login_user ex_env_local ex_req_bob bob ex_state =
        (Inr (Redirect (UrlFor ''mfa_verify'')),
         ex_state\<lparr>session := ex_session\<lparr>username := Some ''bob''\<rparr>\<rparr>)"
    using t0 by (simp add: ex_state_def bob_def)
  have v: "current_user (snd (mfa_verify ex_env_local ex_req_bob (snd (login ex_env_local ex_req_bob ex_state))))
             = None"
    "logged_in_message ''bob''
       \<notin> set (activities (snd (mfa_verify ex_env_local ex_req_bob
                                  (snd (login ex_env_local ex_req_bob ex_state)))))"
    using t1 c1 a1 by blast+
  show ?thesis
    using m0 c0 w v l by (simp add: ex_state_def)
qed

text \<open>
  Claim C8. When the marker is true, the user has no case context and the case table is
  empty, \<open>wrap_login_user\<close> raises the \<open>AttributeError\<close> of reading \<open>case_id\<close> of \<open>None\<close>: it
  returns no response. When the case table is not empty, \<open>wrap_login_user\<close> raises no
  \<open>AttributeError\<close> at all.
\<close>

theorem finalize_without_cases_is_fatal:
  "(mfa_verified (session st) = Some True \<and> ctx_case u = None \<and> cases st = [] \<longrightarrow>
      fst (wrap_login_user env req u st)
        = Inl (AttributeError (none_has_no_attribute ''case_id'')))
   \<and> (cases st \<noteq> [] \<longrightarrow> (\<forall>m. fst (wrap_login_user env req u st) \<noteq> Inl (AttributeError m)))"
  using wrap_login_user_no_case[of st u env req] wrap_login_user_attribute_error[of env req u st]
  by blast

theorem finalize_without_cases_is_fatal_witness:
  "mfa_verified (session ex_no_cases_state) = Some True \<and> ctx_case alice = None
   \<and> cases ex_no_cases_state = []
   \<and> fst (wrap_login_user ex_env ex_req alice ex_no_cases_state)
       = Inl (AttributeError (none_has_no_attribute ''case_id''))
   \<and> cases ex_verified_state \<noteq> []
   \<and> fst (wrap_login_user ex_env ex_req alice ex_verified_state)
       = Inr (Redirect (UrlForCid ''index.index'' (Some 3)))"
  using finalize_without_cases_is_fatal[of ex_no_cases_state alice ex_env ex_req]
        finalize_without_cases_is_fatal[of ex_verified_state alice ex_env ex_req]
  by (simp add: ex_defs handler_defs Let_def)

text \<open>
  Claim C2. In a finalization (the marker is true): for a user without case context and a
  non-empty case table there is a case of lowest id such that afterwards the row of the
  user in the user table carries that case's id and name, the session's current-case
  descriptor holds them, and a later lookup of the user by login name finds the user with
  that assignment; for a user with a case context the user table is unchanged and the
  descriptor holds the user's existing case id and case name.
\<close>

theorem finalize_assigns_lowest_case:
  assumes "mfa_verified (session st) = Some True"
  shows "(ctx_case u = None \<and> cases st \<noteq> [] \<longrightarrow>
           (\<exists>c \<in> set (cases st). (\<forall>d \<in> set (cases st). case_id c \<le> case_id d) \<and>
              (let u' = u\<lparr>ctx_case := Some (case_id c), ctx_human_case := Some (name c)\<rparr>;
                   st' = snd (wrap_login_user env req u st)
               in users st' = map (\<lambda>v. if user_id v = user_id u then u' else v) (users st)
                \<and> current_case (session st') =
                    Some \<lparr>cc_case_name = Some (name c), cc_case_info = [], cc_case_id = Some (case_id c)\<rparr>
                \<and> (get_active_user_by_login (user u) st = Some u \<longrightarrow>
                     get_active_user_by_login (user u) st' = Some u'))))
       \<and> (\<forall>k. ctx_case u = Some k \<longrightarrow>
            users (snd (wrap_login_user env req u st)) = users st
            \<and> current_case (session (snd (wrap_login_user env req u st))) =
                Some \<lparr>cc_case_name = ctx_human_case u, cc_case_info = [], cc_case_id = Some k\<rparr>)"
proof -
  let ?st4 = "(track_activity (''user '' @ apos @ user u @ apos @ '' successfully logged-in'')
                   (login_user u (st\<lparr>session := (session st)\<lparr>username := Some (user u)\<rparr>\<rparr>)))
                 \<lparr>session := (session st)\<lparr>username := Some (user u),
                     permissions := Some (ac_get_effective_permissions_of_user env u)\<rparr>\<rparr>"
  have cs: "cases ?st4 = cases st" and us: "users ?st4 = users st"
    by (simp_all add: track_activity_def login_user_def)
  note w = wrap_login_user_verified[OF assms, of env req u]
  show ?thesis
  proof (cases u ?st4 rule: resolve_case_cases)
    case raised
    with cs show ?thesis by simp
  next
    case (assigned c)
    let ?u' = "u\<lparr>ctx_case := Some (case_id c), ctx_human_case := Some (name c)\<rparr>"
    have persist: "get_active_user_by_login (user u) st = Some u \<Longrightarrow>
        find (\<lambda>v. user v = user u \<and> active v)
          (map (\<lambda>v. if user_id v = user_id u then ?u' else v) (users st)) = Some ?u'"
      unfolding get_active_user_by_login_def
      by (rule find_map_replace) (auto dest: find_SomeD)
    have eq: "snd (wrap_login_user env req u st) =
        track_activity (''user '' @ apos @ str_user env ?u' @ apos @ '' successfully logged-in'')
          (((db_commit ?u' ?st4)\<lparr>current_user := Some ?u'\<rparr>)
             \<lparr>session := (session ((db_commit ?u' ?st4)\<lparr>current_user := Some ?u'\<rparr>))
                \<lparr>current_case := Some \<lparr>cc_case_name = ctx_human_case ?u', cc_case_info = [],
                                        cc_case_id = ctx_case ?u'\<rparr>\<rparr>\<rparr>)"
      unfolding w Let_def assigned(4) by simp
    have "users (snd (wrap_login_user env req u st))
            = map (\<lambda>v. if user_id v = user_id u then ?u' else v) (users st)"
      unfolding eq using us by (simp add: track_activity_def db_commit_def)
    moreover have "current_case (session (snd (wrap_login_user env req u st))) =
        Some \<lparr>cc_case_name = Some (name c), cc_case_info = [], cc_case_id = Some (case_id c)\<rparr>"
      unfolding eq by (simp add: track_activity_def db_commit_def)
    ultimately show ?thesis
      using assigned(1-3) cs persist
      by (auto simp: Let_def get_active_user_by_login_def intro!: bexI[of _ c])
  next
    case (kept k)
    have eq: "snd (wrap_login_user env req u st) =
        track_activity (''user '' @ apos @ str_user env u @ apos @ '' successfully logged-in'')
          (?st4\<lparr>session := (session ?st4)
                \<lparr>current_case := Some \<lparr>cc_case_name = ctx_human_case u, cc_case_info = [],
                                        cc_case_id = ctx_case u\<rparr>\<rparr>\<rparr>)"
      unfolding w Let_def kept(2) by simp
    show ?thesis
      unfolding eq using us kept(1) by (simp add: track_activity_def)
  qed
qed

theorem finalize_assigns_lowest_case_witness:
  "mfa_verified (session ex_verified_state) = Some True \<and> ctx_case alice = None
   \<and> cases ex_verified_state \<noteq> []
   \<and> users (snd (wrap_login_user ex_env ex_req alice ex_verified_state))
       = [alice\<lparr>ctx_case := Some 3, ctx_human_case := Some ''three''\<rparr>, bob]
   \<and> current_case (session (snd (wrap_login_user ex_env ex_req alice ex_verified_state)))
       = Some \<lparr>cc_case_name = Some ''three'', cc_case_info = [], cc_case_id = Some 3\<rparr>
   \<and> ctx_case bob = Some 7
   \<and> users (snd (wrap_login_user ex_env ex_req bob ex_verified_state)) = [alice, bob]
   \<and> current_case (session (snd (wrap_login_user ex_env ex_req bob ex_verified_state)))
       = Some \<lparr>cc_case_name = Some ''seven'', cc_case_info = [], cc_case_id = Some 7\<rparr>"
  using finalize_assigns_lowest_case[where st = ex_verified_state and u = alice and env = ex_env and req = ex_req]
        finalize_assigns_lowest_case[where st = ex_verified_state and u = bob and env = ex_env and req = ex_req]
  by (simp add: ex_defs Let_def)

text \<open>
  Where the redirect of a finalization goes when \<open>urlsplit\<close> accepts a non-empty \<open>next\<close>
  argument, \<open>cid\<close> being the case id after the case context was resolved: with a
  non-empty network location, to \<open>url_for('index.index', cid=cid)\<close>; without one, to
  \<open>next\<close> itself if it contains \<open>cid=\<close>, and else to \<open>next\<close> followed by \<open>?cid=\<close> and the
  case id in decimal.
\<close>

theorem redirect_guard:
  assumes "mfa_verified (session st) = Some True"
    and "args_next req = Some nxt" and "nxt \<noteq> []"
    and "fst (resolve_case u st) = Inr u'" and "ctx_case u' = Some cid"
  shows "(\<forall>n. urlsplit_netloc env nxt = Inr n \<and> n \<noteq> [] \<longrightarrow>
            fst (wrap_login_user env req u st) = Inr (Redirect (UrlForCid ''index.index'' (Some cid))))
       \<and> (urlsplit_netloc env nxt = Inr [] \<and> contains ''cid='' nxt \<longrightarrow>
            fst (wrap_login_user env req u st) = Inr (Redirect (Url nxt)))
       \<and> (urlsplit_netloc env nxt = Inr [] \<and> \<not> contains ''cid='' nxt \<longrightarrow>
            fst (wrap_login_user env req u st) = Inr (Redirect (Url (nxt @ ''?cid='' @ str_int cid))))"
proof -
  let ?st4 = "(track_activity (''user '' @ apos @ user u @ apos @ '' successfully logged-in'')
                   (login_user u (st\<lparr>session := (session st)\<lparr>username := Some (user u)\<rparr>\<rparr>)))
                 \<lparr>session := (session st)\<lparr>username := Some (user u),
                     permissions := Some (ac_get_effective_permissions_of_user env u)\<rparr>\<rparr>"
  have "cases ?st4 = cases st"
    by (simp add: track_activity_def login_user_def)
  then have "fst (resolve_case u ?st4) = Inr u'"
    using assms(4) resolve_case_fst_cong[of ?st4 st u] by simp
  then obtain st5 where r: "resolve_case u ?st4 = (Inr u', st5)"
    by (cases "resolve_case u ?st4") auto
  have w: "fst (wrap_login_user env req u st) =
             (case redirect_target env req u' of Inl e \<Rightarrow> Inl e | Inr loc \<Rightarrow> Inr (Redirect loc))"
    using wrap_login_user_verified[OF assms(1), of env req u] r by (simp add: Let_def)
  show ?thesis
    unfolding w redirect_target_next[OF assms(2,3,5)] by simp
qed

theorem redirect_guard_witness:
  "mfa_verified (session ex_verified_state) = Some True
   \<and> urlsplit_netloc ex_env ''http://evil.example/x'' = Inr ''evil.example''
   \<and> fst (wrap_login_user ex_env ex_req_evil alice
            ex_verified_state) = Inr (Redirect (UrlForCid ''index.index'' (Some 3)))
   \<and> urlsplit_netloc ex_env ''/cases?cid=5'' = Inr []
   \<and> fst (wrap_login_user ex_env ex_req_cid alice
            ex_verified_state) = Inr (Redirect (Url ''/cases?cid=5''))
   \<and> urlsplit_netloc ex_env ''/cases'' = Inr []
   \<and> fst (wrap_login_user ex_env ex_req_cases alice
            ex_verified_state) = Inr (Redirect (Url ''/cases?cid=3''))"
proof -
  have v: "mfa_verified (session ex_verified_state) = Some True"
    by (simp add: ex_defs)
  have r: "fst (resolve_case alice ex_verified_state)
             = Inr (alice\<lparr>ctx_case := Some 3, ctx_human_case := Some ''three''\<rparr>)"
    by (simp add: ex_defs resolve_case_def first_case_by_id_def Let_def)
  have n1: "urlsplit_netloc ex_env ''http://evil.example/x'' = Inr ''evil.example''"
    by (simp add: url_defs ex_env_def)
  have n2: "urlsplit_netloc ex_env ''/cases?cid=5'' = Inr []"
    by (simp add: url_defs ex_env_def)
  have n3: "urlsplit_netloc ex_env ''/cases'' = Inr []"
    by (simp add: url_defs ex_env_def)
  show ?thesis
    using v n1 n2 n3
      redirect_guard[where st = ex_verified_state and env = ex_env and u = alice and cid = 3
        and u' = "alice\<lparr>ctx_case := Some 3, ctx_human_case := Some ''three''\<rparr>"
        and req = ex_req_evil
        and nxt = "''http://evil.example/x''", OF v _ _ r]
      redirect_guard[where st = ex_verified_state and env = ex_env and u = alice and cid = 3
        and u' = "alice\<lparr>ctx_case := Some 3, ctx_human_case := Some ''three''\<rparr>"
        and req = ex_req_cid
        and nxt = "''/cases?cid=5''", OF v _ _ r]
      redirect_guard[where st = ex_verified_state and env = ex_env and u = alice and cid = 3
        and u' = "alice\<lparr>ctx_case := Some 3, ctx_human_case := Some ''three''\<rparr>"
        and req = ex_req_cases
        and nxt = "''/cases''", OF v _ _ r]
    by (simp add: str_int_3 ex_req_evil_def ex_req_cid_def ex_req_cases_def)
qed

text \<open>
  Claim C1 says that a same-origin \<open>next\<close> without \<open>cid=\<close> gets the case id appended as a
  \<open>cid\<close> query parameter, and that a \<open>next\<close> with a network location leads to the default
  landing page. \<open>wrap_login_user\<close> appends the text \<open>?cid=7\<close> for \<open>bob\<close>, whose case is 7,
  whatever \<open>next\<close> looks like. Behind the query string of \<open>/cases?page=2\<close> the text
  becomes part of the value of \<open>page\<close>, and behind the fragment of \<open>/cases#top\<close> part of
  the fragment: the URL redirected to has no parameter \<open>cid\<close>. And for \<open>//[evil.example\<close>,
  where \<open>urlsplit\<close> finds a network location and rejects it, \<open>wrap_login_user\<close> raises
  \<open>ValueError\<close> and redirects nowhere.
\<close>

theorem redirect_appends_text_not_parameter:
  "urlsplit_netloc ex_env ''/cases?page=2'' = Inr [] \<and> \<not> contains ''cid='' ''/cases?page=2''
   \<and> fst (wrap_login_user ex_env ex_req_paged bob ex_verified_state)
       = Inr (Redirect (Url ''/cases?page=2?cid=7''))
   \<and> query_parameter_names ''/cases?page=2?cid=7'' = [''page'']
   \<and> urlsplit_netloc ex_env ''/cases#top'' = Inr [] \<and> \<not> contains ''cid='' ''/cases#top''
   \<and> fst (wrap_login_user ex_env ex_req_fragment bob ex_verified_state)
       = Inr (Redirect (Url ''/cases#top?cid=7''))
   \<and> query_parameter_names ''/cases#top?cid=7'' = []
   \<and> find_netloc ''//[evil.example'' = ''[evil.example''
   \<and> fst (wrap_login_user ex_env ex_req_bracket bob ex_verified_state)
       = Inl (ValueError ''Invalid IPv6 URL'')"
proof -
  have s7: "str_int 7 = ''7''"
    by (simp add: str_int_def str_nat.simps[of 7] digit_char_def)
  have v: "mfa_verified (session ex_verified_state) = Some True"
    by (simp add: ex_defs)
  have w: "fst (wrap_login_user ex_env r bob ex_verified_state) =
             (case redirect_target ex_env r bob of Inl e \<Rightarrow> Inl e | Inr loc \<Rightarrow> Inr (Redirect loc))" for r
    unfolding wrap_login_user_verified[OF v]
    by (simp add: Let_def resolve_case_def bob_def)
  have q: "query_parameter_names ''/cases?page=2?cid=7'' = [''page'']"
    "query_parameter_names ''/cases#top?cid=7'' = []"
    by (simp_all add: query_parameter_names_def urlsplit_query_def url_defs)
  have n: "urlsplit_netloc ex_env ''/cases?page=2'' = Inr []"
    "urlsplit_netloc ex_env ''/cases#top'' = Inr []"
    "find_netloc ''//[evil.example'' = ''[evil.example''"
    by (simp_all add: url_defs ex_env_def)
  have t: "redirect_target ex_env ex_req_paged bob = Inr (Url ''/cases?page=2?cid=7'')"
    "redirect_target ex_env ex_req_fragment bob = Inr (Url ''/cases#top?cid=7'')"
    "redirect_target ex_env ex_req_bracket bob = Inl (ValueError ''Invalid IPv6 URL'')"
    by (simp_all add: redirect_target_def url_defs str_opt_int_def s7 ex_defs)
  show ?thesis
    using q n by (simp add: w t)
qed

subsection \<open>MFA setup and verification\<close>

text \<open>
  Claim C5, as amended. When the token of an MFA-setup submission verifies against the
  user's secret, \<open>mfa_setup\<close> sets \<open>mfa_enabled\<close> on the user, commits it, writes the
  activity entry of a successful setup and continues with \<open>wrap_login_user\<close>. It does not
  touch the session's mfa-verified marker: unless the marker is already true, the
  response is the redirect to the MFA verification entry point, with the flag committed
  and the activity entry written.
\<close>

theorem mfa_setup_success_rejoins_gate:
  assumes "current_user st = Some u0" and "mfa_form_submit_and_validate req"
    and "ensure_secret env u0 st = (secret, u1, st1)"
    and "totp_verify env secret (form_token req)"
  shows "mfa_setup env req st =
           wrap_login_user env req (u1\<lparr>mfa_enabled := True\<rparr>)
             (track_activity (''MFA setup successful for user '' @ user u1)
                ((db_commit (u1\<lparr>mfa_enabled := True\<rparr>) st1)
                   \<lparr>current_user := Some (u1\<lparr>mfa_enabled := True\<rparr>)\<rparr>))
       \<and> (mfa_verified (session st) \<noteq> Some True \<longrightarrow>
            fst (mfa_setup env req st) = Inr (Redirect (UrlFor ''mfa_verify''))
            \<and> users (snd (mfa_setup env req st))
                = map (\<lambda>v. if user_id v = user_id u0 then u1\<lparr>mfa_enabled := True\<rparr> else v) (users st1)
            \<and> activities (snd (mfa_setup env req st))
                = activities st @ [''MFA setup successful for user '' @ user u0])"
proof -
  have eq: "mfa_setup env req st =
           wrap_login_user env req (u1\<lparr>mfa_enabled := True\<rparr>)
             (track_activity (''MFA setup successful for user '' @ user u1)
                ((db_commit (u1\<lparr>mfa_enabled := True\<rparr>) st1)
                   \<lparr>current_user := Some (u1\<lparr>mfa_enabled := True\<rparr>)\<rparr>))"
    using assms by (simp add: mfa_setup_def Let_def)
  have s1: "session st1 = session st" "activities st1 = activities st" "user u1 = user u0"
     "user_id u1 = user_id u0"
    using assms(3)
    by (auto simp: ensure_secret_def Let_def db_commit_def split: option.splits if_splits)
  show ?thesis
    unfolding eq using s1
    by (simp add: wrap_login_user_gate track_activity_def db_commit_def)
qed

theorem mfa_setup_success_rejoins_gate_witness:
  "current_user ex_setup_state = Some bob \<and> mfa_form_submit_and_validate ex_req
   \<and> ensure_secret ex_env bob ex_setup_state
        = (''JBSWY3DPEHPK3PXP'', bob\<lparr>mfa_secrets := Some ''JBSWY3DPEHPK3PXP''\<rparr>,
           ex_setup_state\<lparr>users := [alice, bob\<lparr>mfa_secrets := Some ''JBSWY3DPEHPK3PXP''\<rparr>],
              current_user := Some (bob\<lparr>mfa_secrets := Some ''JBSWY3DPEHPK3PXP''\<rparr>)\<rparr>)
   \<and> totp_verify ex_env ''JBSWY3DPEHPK3PXP'' (form_token ex_req)
   \<and> mfa_verified (session ex_setup_state) \<noteq> Some True
   \<and> fst (mfa_setup ex_env ex_req ex_setup_state) = Inr (Redirect (UrlFor ''mfa_verify''))
   \<and> users (snd (mfa_setup ex_env ex_req ex_setup_state)) = [alice, bob_enrolled]"
proof -
  have e: "ensure_secret ex_env bob ex_setup_state
        = (''JBSWY3DPEHPK3PXP'', bob\<lparr>mfa_secrets := Some ''JBSWY3DPEHPK3PXP''\<rparr>,
           ex_setup_state\<lparr>users := [alice, bob\<lparr>mfa_secrets := Some ''JBSWY3DPEHPK3PXP''\<rparr>],
              current_user := Some (bob\<lparr>mfa_secrets := Some ''JBSWY3DPEHPK3PXP''\<rparr>)\<rparr>)"
    by (simp add: ex_defs ensure_secret_def Let_def db_commit_def)
  have c: "current_user ex_setup_state = Some bob" "mfa_form_submit_and_validate ex_req"
     "totp_verify ex_env ''JBSWY3DPEHPK3PXP'' (form_token ex_req)"
     "mfa_verified (session ex_setup_state) \<noteq> Some True"
    by (simp_all add: ex_defs)
  show ?thesis
    using mfa_setup_success_rejoins_gate[OF c(1) c(2) e c(3), THEN conjunct2] e c
    by (simp add: ex_defs db_commit_def)
qed

text \<open>
  Claim C5 as stated says that a verified setup token leads on to session finalization
  and not back to the MFA verification entry point. \<open>bob\<close>, sent to the setup page by the
  verification entry point (which has set the marker to false), submits a token that
  verifies: he is enrolled, the response is the redirect to the verification entry point,
  and no current case has been put into the session.
\<close>

theorem mfa_setup_success_counterexample:
  "current_user ex_setup_state = Some bob
   \<and> mfa_form_submit_and_validate ex_req
   \<and> totp_verify ex_env ''JBSWY3DPEHPK3PXP'' (form_token ex_req)
   \<and> fst (mfa_setup ex_env ex_req ex_setup_state) = Inr (Redirect (UrlFor ''mfa_verify''))
   \<and> users (snd (mfa_setup ex_env ex_req ex_setup_state)) = [alice, bob_enrolled]
   \<and> current_case (session (snd (mfa_setup ex_env ex_req ex_setup_state))) = None"
  by (simp add: ex_defs mfa_setup_def ensure_secret_def Let_def wrap_login_user_gate
        track_activity_def db_commit_def)



text \<open>
  Claim C9. With a username in the session that the user table does not resolve to an
  active user, \<open>mfa_verify\<close> raises the \<open>AttributeError\<close> of reading \<open>mfa_secrets\<close> of
  \<open>None\<close>; the redirect to the login entry point is taken only when the session has no
  username.
\<close>

theorem mfa_verify_stale_username_raises:
  "(\<forall>uname. username (session st) = Some uname \<and> get_active_user_by_login uname st = None \<longrightarrow>
      fst (mfa_verify env req st) = Inl (AttributeError (none_has_no_attribute ''mfa_secrets'')))
   \<and> (username (session st) = None \<longrightarrow>
        mfa_verify env req st = (Inr (Redirect (UrlFor ''login'')), st))"
proof (intro conjI allI impI)
  fix uname
  assume "username (session st) = Some uname \<and> get_active_user_by_login uname st = None"
  then have "retrieve_user_by_username uname (st\<lparr>session := (session st)\<lparr>mfa_verified := Some False\<rparr>\<rparr>)
             = (None, track_activity
                  (''someone tried to log in with user '' @ apos @ uname @ apos @ '', which does not exist'')
                  (st\<lparr>session := (session st)\<lparr>mfa_verified := Some False\<rparr>\<rparr>))"
    and "username (session st) = Some uname"
    by (simp_all add: retrieve_user_by_username_def get_active_user_by_login_def)
  then show "fst (mfa_verify env req st) = Inl (AttributeError (none_has_no_attribute ''mfa_secrets''))"
    by (simp add: mfa_verify_def mfa_verify_steps_def Let_def)
next
  assume "username (session st) = None"
  then show "mfa_verify env req st = (Inr (Redirect (UrlFor ''login'')), st)"
    by (simp add: mfa_verify_def mfa_verify_steps_def)
qed

theorem mfa_verify_stale_username_raises_witness:
  "username (session ex_stale_state) = Some ''carol''
   \<and> get_active_user_by_login ''carol'' ex_stale_state = None
   \<and> fst (mfa_verify ex_env ex_req ex_stale_state)
       = Inl (AttributeError (none_has_no_attribute ''mfa_secrets''))
   \<and> username (session ex_state) = None
   \<and> mfa_verify ex_env ex_req ex_state = (Inr (Redirect (UrlFor ''login'')), ex_state)"
  using mfa_verify_stale_username_raises[of ex_stale_state ex_env ex_req]
        mfa_verify_stale_username_raises[of ex_state ex_env ex_req]
  by (simp add: ex_defs get_active_user_by_login_def)

subsection \<open>Remarks\<close>

text \<open>
  The first statement of \<open>wrap_login_user\<close> stores the username in the session again, so
  when \<open>mfa_verify\<close> has gone on to \<open>wrap_login_user\<close> the session holds the username of the
  verified user.
\<close>

lemma mfa_verify_restores_username:
  assumes "username (session st) = Some uname"
    and "get_active_user_by_login uname st = Some u"
    and "mfa_secrets u = Some secret" and "secret \<noteq> []"
    and "mfa_form_submit_and_validate req" and "truthy (form_token req)"
    and "totp_verify env secret (form_token req)"
    and "current_user st = Some cu"
  shows "username (session (snd (mfa_verify env req st))) = Some (user u)"
  using assms
  by (simp add: mfa_verify_def mfa_verify_steps_def mfa_verify_token_def
        retrieve_user_by_username_def get_active_user_by_login_def current_user_user_def Let_def
        wrap_login_user_username)

end
